theory Spec2Isabelle
  imports Main "HOL-Library.AList" "HOL-Library.Sublist"
begin

section \<open>JavaScript values\<close>

text \<open>
  The abstract input component of ember-frost-bunsen
  (\<^verbatim>\<open>addon/components/inputs/abstract-input.js\<close>) works on dynamically typed data: the
  model value, the cell configuration and the change events are JSON-like values. A
  property list stands for an object; the first binding of a key is the property, so every
  list denotes an object. Numbers are restricted to integers (the component does no
  arithmetic), a \<^typ>\<open>char\<close> stands for one code unit of a string, and function values
  are outside the universe: the methods the source calls (\<^verbatim>\<open>reduce\<close>,
  \<^verbatim>\<open>replace\<close>, \<^verbatim>\<open>split\<close>, \<^verbatim>\<open>join\<close>) are modelled where they are called.
\<close>

datatype jsval =
    JUndefined
  | JNull
  | JBool bool
  | JNum int
  | JStr string
  | JArr "jsval list"
  | JObj "(string \<times> jsval) list"

text \<open>An exception thrown by the source or by one of its collaborators.\<close>

datatype jserror = TypeError | SyntaxError | Error string

text \<open>What the component emits: a \<^verbatim>\<open>Logger.warn\<close> line, or a call of the parent's
  \<^verbatim>\<open>onChange(bunsenId, value)\<close>.\<close>

datatype emission = Warn jsval | Upward string jsval

type_synonym 'a result = "(jserror + 'a) \<times> emission list"

text \<open>Truthiness (\<^verbatim>\<open>ToBoolean\<close>).\<close>

fun truthy :: "jsval \<Rightarrow> bool" where
  "truthy JUndefined = False"
| "truthy JNull = False"
| "truthy (JBool b) = b"
| "truthy (JNum n) = (n \<noteq> 0)"
| "truthy (JStr s) = (s \<noteq> [])"
| "truthy (JArr xs) = True"
| "truthy (JObj kvs) = True"

text \<open>\<^verbatim>\<open>_.isString\<close> and \<^verbatim>\<open>_.isUndefined\<close>.\<close>

fun isString :: "jsval \<Rightarrow> bool" where
  "isString (JStr s) = True"
| "isString v = False"

fun isUndefined :: "jsval \<Rightarrow> bool" where
  "isUndefined JUndefined = True"
| "isUndefined v = False"

text \<open>The canonical decimal numeral of an array index.\<close>

fun digits :: "nat \<Rightarrow> string" where
  "digits n = (if n < 10 then [char_of (48 + n)] else digits (n div 10) @ [char_of (48 + n mod 10)])"

definition index_of_key :: "string \<Rightarrow> nat \<Rightarrow> nat option" where
  "index_of_key k n = List.find (\<lambda>i. digits i = k) [0..<n]"

text \<open>
  Reading a data property \<^verbatim>\<open>o[k]\<close> of a value that is neither \<^verbatim>\<open>undefined\<close> nor
  \<^verbatim>\<open>null\<close>: an object's own property, an index or the length of an array or of a
  string, and \<^verbatim>\<open>undefined\<close> otherwise. None of the names the source reads
  (\<^verbatim>\<open>value\<close>, \<^verbatim>\<open>target\<close>, \<^verbatim>\<open>object\<close>, \<^verbatim>\<open>from\<close>, \<^verbatim>\<open>to\<close>,
  \<^verbatim>\<open>regex\<close>, \<^verbatim>\<open>global\<close>, \<^verbatim>\<open>transforms\<close>, \<^verbatim>\<open>read\<close>, \<^verbatim>\<open>write\<close>)
  is inherited from a built-in prototype.
\<close>

fun own_prop :: "jsval \<Rightarrow> string \<Rightarrow> jsval" where
  "own_prop (JObj kvs) k = (case map_of kvs k of Some v \<Rightarrow> v | None \<Rightarrow> JUndefined)"
| "own_prop (JArr xs) k =
     (if k = ''length'' then JNum (int (length xs))
      else case index_of_key k (length xs) of Some i \<Rightarrow> xs ! i | None \<Rightarrow> JUndefined)"
| "own_prop (JStr s) k =
     (if k = ''length'' then JNum (int (length s))
      else case index_of_key k (length s) of Some i \<Rightarrow> JStr [s ! i] | None \<Rightarrow> JUndefined)"
| "own_prop v k = JUndefined"

text \<open>\<^verbatim>\<open>o.k\<close>: a \<^verbatim>\<open>TypeError\<close> on \<^verbatim>\<open>undefined\<close> and \<^verbatim>\<open>null\<close>.\<close>

fun js_prop :: "jsval \<Rightarrow> string \<Rightarrow> jserror + jsval" where
  "js_prop JUndefined k = Inl TypeError"
| "js_prop JNull k = Inl TypeError"
| "js_prop v k = Inr (own_prop v k)"

text \<open>\<^verbatim>\<open>k in o\<close>: a \<^verbatim>\<open>TypeError\<close> unless \<^verbatim>\<open>o\<close> is an object or an array.\<close>

fun js_in :: "string \<Rightarrow> jsval \<Rightarrow> jserror + bool" where
  "js_in k (JObj kvs) = Inr (k \<in> set (map fst kvs))"
| "js_in k (JArr xs) = Inr (k = ''length'' \<or> index_of_key k (length xs) \<noteq> None)"
| "js_in k v = Inl TypeError"

text \<open>Whether \<^verbatim>\<open>k\<close> is a property of \<^verbatim>\<open>Object(o)\<close>, for the dotted path that
  \<^verbatim>\<open>_.get\<close> first tries as one key.\<close>

fun has_own :: "jsval \<Rightarrow> string \<Rightarrow> bool" where
  "has_own (JObj kvs) k = (k \<in> set (map fst kvs))"
| "has_own (JArr xs) k = (k = ''length'' \<or> index_of_key k (length xs) \<noteq> None)"
| "has_own (JStr s) k = (k = ''length'' \<or> index_of_key k (length s) \<noteq> None)"
| "has_own v k = False"

text \<open>
  \<^verbatim>\<open>Object.keys(o)\<close>: the own enumerable keys; \<^verbatim>\<open>undefined\<close> and \<^verbatim>\<open>null\<close>
  cannot be converted to an object.
\<close>

fun Object_keys :: "jsval \<Rightarrow> jserror + string list" where
  "Object_keys JUndefined = Inl TypeError"
| "Object_keys JNull = Inl TypeError"
| "Object_keys (JObj kvs) = Inr (remdups (map fst kvs))"
| "Object_keys (JArr xs) = Inr (map digits [0..<length xs])"
| "Object_keys (JStr s) = Inr (map digits [0..<length s])"
| "Object_keys v = Inr []"

text \<open>
  \<^verbatim>\<open>_.isEqual\<close>: deep equality. Primitives are compared by value, arrays element by
  element, objects key by key whatever the order of their keys.
\<close>

lemma size_map_of [termination_simp]:
  "map_of kvs k = Some v \<Longrightarrow> size v < Suc (size_list (\<lambda>x. Suc (size (snd x))) kvs)"
  by (induction kvs) (auto split: if_splits)

lemma size_zip_left [termination_simp]:
  "(x, y) \<in> set (zip xs ys) \<Longrightarrow> size x < Suc (size_list size xs)"
proof -
  assume "(x, y) \<in> set (zip xs ys)"
  then have "x \<in> set xs" by (rule set_zip_leftD)
  then have "size x \<le> size_list size xs" by (rule size_list_estimation') simp
  then show ?thesis by simp
qed

fun isEqual :: "jsval \<Rightarrow> jsval \<Rightarrow> bool" where
  "isEqual (JArr xs) (JArr ys) =
     (length xs = length ys \<and> (\<forall>(x, y) \<in> set (zip xs ys). isEqual x y))"
| "isEqual (JObj a) (JObj b) =
     (length (remdups (map fst a)) = length (remdups (map fst b)) \<and>
      (\<forall>k \<in> set (map fst a).
         case map_of a k of
           None \<Rightarrow> False
         | Some v \<Rightarrow> (case map_of b k of None \<Rightarrow> False | Some w \<Rightarrow> isEqual v w)))"
| "isEqual (JArr xs) w = False"
| "isEqual (JObj a) w = False"
| "isEqual v w = (v = w)"


section \<open>Path reads\<close>

text \<open>
  \<^verbatim>\<open>_.get(object, 'a.b')\<close>: \<^verbatim>\<open>undefined\<close> on a missing object; the whole path as one
  key when the object has such a property; otherwise the walk along the path, which stops
  with \<^verbatim>\<open>undefined\<close> at \<^verbatim>\<open>undefined\<close> or \<^verbatim>\<open>null\<close>.
\<close>

definition lodash_get :: "jsval \<Rightarrow> string \<Rightarrow> string \<Rightarrow> jsval" where
  "lodash_get object a b =
     (if object = JUndefined \<or> object = JNull then JUndefined
      else if has_own object (a @ ''.'' @ b) then own_prop object (a @ ''.'' @ b)
      else (let inner = own_prop object a
            in if inner = JUndefined \<or> inner = JNull then JUndefined else own_prop inner b))"

text \<open>Ember's \<^verbatim>\<open>this.get('a.b.c')\<close>, from the value of \<^verbatim>\<open>a\<close> on: the walk along the
  remaining keys.\<close>

fun ember_get :: "jsval \<Rightarrow> string list \<Rightarrow> jsval" where
  "ember_get obj [] = obj"
| "ember_get obj (k # ks) =
     (if obj = JUndefined \<or> obj = JNull then JUndefined else ember_get (own_prop obj k) ks)"

section \<open>Splitting and joining strings\<close>

text \<open>
  \<^verbatim>\<open>String.prototype.split\<close> with a string separator and no limit. With a separator that
  is not empty the subject is cut at each match found from left to right, the search
  resuming after the match; \<open>piece\<close> holds the characters read since the last cut.
\<close>

function split_at :: "string \<Rightarrow> string \<Rightarrow> string \<Rightarrow> string list" where
  "split_at sep piece [] = [piece]"
| "split_at sep piece (c # cs) =
     (if sep \<noteq> [] \<and> prefix sep (c # cs)
      then piece # split_at sep [] (drop (length sep) (c # cs))
      else split_at sep (piece @ [c]) cs)"
  by pat_completeness auto
termination
  by (relation "measure (\<lambda>(sep, piece, s). length s)") auto

text \<open>The empty separator cuts between every two code units; the empty subject then has
  no piece at all.\<close>

definition String_split :: "string \<Rightarrow> string \<Rightarrow> string list" where
  "String_split sep s = (if sep = [] then map (\<lambda>c. [c]) s else split_at sep [] s)"

text \<open>\<^verbatim>\<open>Array.prototype.join\<close> on an array of strings.\<close>

fun Array_join :: "string \<Rightarrow> string list \<Rightarrow> string" where
  "Array_join sep [] = []"
| "Array_join sep [x] = x"
| "Array_join sep (x # y # ys) = x @ sep @ Array_join sep (y # ys)"

section \<open>Collaborators\<close>

text \<open>
  What the component calls and does not define: \<^verbatim>\<open>parseVariables\<close> of bunsen-core,
  which returns the template string with its variables filled in; the regular expressions
  of the platform (\<^verbatim>\<open>new RegExp(source, flags)\<close> and \<^verbatim>\<open>String.prototype.replace\<close>
  with a pattern of type \<open>'r\<close>); and the conversion \<^verbatim>\<open>ToString\<close> of a value that is
  not a string. Each may throw.
\<close>

record 'r env =
  parseVariables :: "jsval \<Rightarrow> jsval \<Rightarrow> string \<Rightarrow> bool \<Rightarrow> jserror + string"
  RegExp :: "jsval \<Rightarrow> string \<Rightarrow> jserror + 'r"
  String_replace :: "string \<Rightarrow> 'r \<Rightarrow> jsval \<Rightarrow> jserror + string"
  ToString :: "jsval \<Rightarrow> jserror + string"

definition toStr :: "'r env \<Rightarrow> jsval \<Rightarrow> jserror + string" where
  "toStr env v = (case v of JStr s \<Rightarrow> Inr s | _ \<Rightarrow> ToString env v)"

text \<open>\<^verbatim>\<open>s.split(separator)\<close>: an \<^verbatim>\<open>undefined\<close> separator leaves the subject whole.\<close>

definition js_split :: "'r env \<Rightarrow> string \<Rightarrow> jsval \<Rightarrow> jserror + string list" where
  "js_split env s separator =
     (case separator of
        JUndefined \<Rightarrow> Inr [s]
      | _ \<Rightarrow> (case toStr env separator of Inl e \<Rightarrow> Inl e | Inr sep \<Rightarrow> Inr (String_split sep s)))"

text \<open>\<^verbatim>\<open>pieces.join(separator)\<close>: an \<^verbatim>\<open>undefined\<close> separator is a comma.\<close>

definition js_join :: "'r env \<Rightarrow> string list \<Rightarrow> jsval \<Rightarrow> jserror + string" where
  "js_join env pieces separator =
     (case separator of
        JUndefined \<Rightarrow> Inr (Array_join '','' pieces)
      | _ \<Rightarrow> (case toStr env separator of Inl e \<Rightarrow> Inl e | Inr sep \<Rightarrow> Inr (Array_join sep pieces)))"


section \<open>The component\<close>

text \<open>
  The properties a parent passes (\<^verbatim>\<open>undefined\<close> when it passes none); \<open>modelValue\<close> is
  the property \<^verbatim>\<open>value\<close>. The component adds \<^verbatim>\<open>showErrorMessage\<close>, which is not
  part of the properties it declares.
\<close>

record attrs =
  bunsenId :: string
  cellConfig :: jsval
  errorMessage :: jsval
  required :: jsval
  showAllErrors :: jsval
  modelValue :: jsval

record component = attrs +
  showErrorMessage :: jsval

definition getDefaultProps :: "(string \<times> jsval) list" where
  "getDefaultProps = [(''required'', JBool False), (''showErrorMessage'', JBool False)]"

text \<open>A default is taken for a property that is \<^verbatim>\<open>undefined\<close> once the parent's
  properties are set.\<close>

definition with_default :: "string \<Rightarrow> jsval \<Rightarrow> jsval" where
  "with_default k v = (if v = JUndefined then own_prop (JObj getDefaultProps) k else v)"

definition create :: "attrs \<Rightarrow> component" where
  "create a =
     \<lparr> bunsenId = bunsenId a,
       cellConfig = cellConfig a,
       errorMessage = errorMessage a,
       required = with_default ''required'' (required a),
       showAllErrors = showAllErrors a,
       modelValue = modelValue a,
       showErrorMessage = with_default ''showErrorMessage'' JUndefined \<rparr>"

subsection \<open>Computed properties\<close>

definition renderErrorMessage :: "jsval \<Rightarrow> jsval \<Rightarrow> jsval \<Rightarrow> jsval" where
  "renderErrorMessage errMsg showErr showAll =
     (if \<not> truthy showAll \<and> \<not> truthy showErr then JNull else errMsg)"

text \<open>The computed property, on the keys it depends on.\<close>

definition renderErrorMessage_of :: "component \<Rightarrow> jsval" where
  "renderErrorMessage_of c =
     renderErrorMessage (errorMessage c) (showErrorMessage c) (showAllErrors c)"

subsection \<open>Transforms\<close>

definition getTemplateVariables :: "string \<Rightarrow> jsval \<Rightarrow> jsval" where
  "getTemplateVariables fieldId v = JObj [(''id'', JStr fieldId), (''value'', v)]"

text \<open>
  The body of \<^verbatim>\<open>forEach\<close> over the keys: \<^verbatim>\<open>newObject[key] = parseVariables(variables,
  transform.object[key], '', true)\<close>; an exception ends the loop. \<^verbatim>\<open>newObject\<close> is a
  plain object, so the assignment creates or overwrites an own property for every key but
  \<^verbatim>\<open>__proto__\<close>: that one runs the setter inherited from \<^verbatim>\<open>Object.prototype\<close>, which
  ignores a string and creates no property.
\<close>

fun forEach_key ::
  "'r env \<Rightarrow> jsval \<Rightarrow> jsval \<Rightarrow> string list \<Rightarrow> (string \<times> jsval) list
     \<Rightarrow> jserror + (string \<times> jsval) list" where
  "forEach_key env variables templates [] newObject = Inr newObject"
| "forEach_key env variables templates (key # keys) newObject =
     (case parseVariables env variables (own_prop templates key) [] True of
        Inl e \<Rightarrow> Inl e
      | Inr resolved \<Rightarrow>
          forEach_key env variables templates keys
            (if key = ''__proto__'' then newObject
             else AList.update key (JStr resolved) newObject))"

definition applyObjectTransform :: "'r env \<Rightarrow> string \<Rightarrow> jsval \<Rightarrow> jsval \<Rightarrow> jserror + jsval" where
  "applyObjectTransform env fieldId v transform =
     (let variables = getTemplateVariables fieldId v in
      case js_prop transform ''object'' of
        Inl e \<Rightarrow> Inl e
      | Inr templates \<Rightarrow>
          (case Object_keys templates of
             Inl e \<Rightarrow> Inl e
           | Inr keys \<Rightarrow>
               (case forEach_key env variables templates keys [] of
                  Inl e \<Rightarrow> Inl e
                | Inr newObject \<Rightarrow> Inr (JObj newObject))))"

text \<open>A value that is not a string has no method \<^verbatim>\<open>replace\<close> or \<^verbatim>\<open>split\<close>: the call
  is a \<^verbatim>\<open>TypeError\<close>. The pattern is built before \<^verbatim>\<open>value.replace\<close> is looked up.\<close>

definition applyStringTransform :: "'r env \<Rightarrow> jsval \<Rightarrow> jsval \<Rightarrow> jserror + jsval" where
  "applyStringTransform env v transform =
     (case js_prop transform ''global'' of
        Inl e \<Rightarrow> Inl e
      | Inr global \<Rightarrow>
          (let flags = (if global = JBool False then [] else ''g'') in
           if truthy (own_prop transform ''regex'')
           then (case RegExp env (own_prop transform ''from'') flags of
                   Inl e \<Rightarrow> Inl e
                 | Inr pattern \<Rightarrow>
                     (case v of
                        JStr s \<Rightarrow>
                          (case String_replace env s pattern (own_prop transform ''to'') of
                             Inl e \<Rightarrow> Inl e
                           | Inr r \<Rightarrow> Inr (JStr r))
                      | _ \<Rightarrow> Inl TypeError))
           else (case v of
                   JStr s \<Rightarrow>
                     (case js_split env s (own_prop transform ''from'') of
                        Inl e \<Rightarrow> Inl e
                      | Inr pieces \<Rightarrow>
                          (case js_join env pieces (own_prop transform ''to'') of
                             Inl e \<Rightarrow> Inl e
                           | Inr r \<Rightarrow> Inr (JStr r)))
                 | _ \<Rightarrow> Inl TypeError)))"

text \<open>\<^verbatim>\<open>'from' in transform && 'to' in transform\<close>.\<close>

definition isStringTransform :: "jsval \<Rightarrow> jserror + bool" where
  "isStringTransform transform =
     (case js_in ''from'' transform of
        Inl e \<Rightarrow> Inl e
      | Inr hasFrom \<Rightarrow> if hasFrom then js_in ''to'' transform else Inr False)"

definition applyTransform :: "'r env \<Rightarrow> string \<Rightarrow> jsval \<Rightarrow> jsval \<Rightarrow> jsval result" where
  "applyTransform env fieldId v transform =
     (case js_in ''object'' transform of
        Inl e \<Rightarrow> (Inl e, [])
      | Inr objectShape \<Rightarrow>
          (case isStringTransform transform of
             Inl e \<Rightarrow> (Inl e, [])
           | Inr stringShape \<Rightarrow>
               if objectShape then (applyObjectTransform env fieldId v transform, [])
               else if stringShape then (applyStringTransform env v transform, [])
               else (Inr v, [Warn transform])))"

text \<open>\<^verbatim>\<open>transforms.reduce(applyTransform, value)\<close>: the elements in order, the result of
  one call the first argument of the next; an exception ends the loop.\<close>

fun reduce :: "'r env \<Rightarrow> string \<Rightarrow> jsval \<Rightarrow> jsval list \<Rightarrow> jsval result" where
  "reduce env fieldId acc [] = (Inr acc, [])"
| "reduce env fieldId acc (transform # rest) =
     (case applyTransform env fieldId acc transform of
        (Inl e, out) \<Rightarrow> (Inl e, out)
      | (Inr acc', out) \<Rightarrow>
          (case reduce env fieldId acc' rest of (r, out') \<Rightarrow> (r, out @ out')))"

text \<open>Only an array has the method \<^verbatim>\<open>reduce\<close>.\<close>

definition applyTransforms :: "'r env \<Rightarrow> string \<Rightarrow> jsval \<Rightarrow> jsval \<Rightarrow> jsval result" where
  "applyTransforms env fieldId v transforms =
     (if \<not> truthy transforms \<or> own_prop transforms ''length'' = JNum 0 then (Inr v, [])
      else (case transforms of
              JArr ts \<Rightarrow> reduce env fieldId v ts
            | _ \<Rightarrow> (Inl TypeError, [])))"

definition transformedValue :: "'r env \<Rightarrow> string \<Rightarrow> jsval \<Rightarrow> jsval \<Rightarrow> jsval result" where
  "transformedValue env fieldId v config =
     (if \<not> isString v then (Inr v, [])
      else applyTransforms env fieldId v (lodash_get config ''transforms'' ''read''))"

text \<open>\<^verbatim>\<open>_.find\<close> returns the first element the predicate accepts, \<^verbatim>\<open>undefined\<close> when
  there is none. Reading \<^verbatim>\<open>data.value\<close> throws on \<^verbatim>\<open>undefined\<close> and \<^verbatim>\<open>null\<close>.\<close>

definition parseValue :: "jsval \<Rightarrow> jserror + jsval" where
  "parseValue data =
     (case js_prop data ''value'' of
        Inl e \<Rightarrow> Inl e
      | Inr dataValue \<Rightarrow>
          (case List.find (\<lambda>x. \<not> isUndefined x)
                  [dataValue, lodash_get data ''target'' ''value'', data] of
             Some x \<Rightarrow> Inr x
           | None \<Rightarrow> Inr JUndefined))"

subsection \<open>Actions\<close>

definition onFocusOut :: "component \<Rightarrow> component" where
  "onFocusOut c = (if \<not> truthy (showErrorMessage c) then c\<lparr>showErrorMessage := JBool True\<rparr> else c)"

definition onFocusIn :: "component \<Rightarrow> component" where
  "onFocusIn c = (if truthy (showErrorMessage c) then c\<lparr>showErrorMessage := JBool False\<rparr> else c)"

text \<open>The action sets no property of the component: it returns what it emits, and the
  exception when one escapes.\<close>

definition onChange :: "'r env \<Rightarrow> component \<Rightarrow> jsval \<Rightarrow> unit result" where
  "onChange env c e =
     (case parseValue e of
        Inl err \<Rightarrow> (Inl err, [])
      | Inr newValue \<Rightarrow>
          (let transforms = ember_get (cellConfig c) [''transforms'', ''write''] in
           case applyTransforms env (bunsenId c) newValue transforms of
             (Inl err, out) \<Rightarrow> (Inl err, out)
           | (Inr transformedNewValue, out) \<Rightarrow>
               (let oldValue = modelValue c in
                if \<not> isEqual transformedNewValue oldValue
                then (Inr (), out @ [Upward (bunsenId c) transformedNewValue])
                else (Inr (), out))))"

text \<open>The events of one field, and the component after an event is handled. The other
  hooks of the component set no property that is read here: \<^verbatim>\<open>init\<close> sets
  \<^verbatim>\<open>hook\<close>, \<^verbatim>\<open>didRender\<close> logs a line.\<close>

datatype event = FocusOut | FocusIn | Change jsval

fun handle :: "'r env \<Rightarrow> component \<Rightarrow> event \<Rightarrow> component" where
  "handle env c FocusOut = onFocusOut c"
| "handle env c FocusIn = onFocusIn c"
| "handle env c (Change e) = c"

text \<open>The upward calls among what was emitted.\<close>

fun upward :: "emission list \<Rightarrow> (string \<times> jsval) list" where
  "upward [] = []"
| "upward (Warn t # out) = upward out"
| "upward (Upward k x # out) = (k, x) # upward out"


section \<open>The specification's words\<close>

text \<open>
  The specification describes \<^verbatim>\<open>applyTransforms\<close> as a fold from left to right in which
  the output of a step is the input of the next; here the fold is \<^const>\<open>foldl\<close> over
  results, a step doing nothing once an exception was thrown.
\<close>

definition spec_fold_step ::
  "('a \<Rightarrow> 'b \<Rightarrow> 'a result) \<Rightarrow> 'a result \<Rightarrow> 'b \<Rightarrow> 'a result" where
  "spec_fold_step f r x =
     (case r of
        (Inl e, out) \<Rightarrow> (Inl e, out)
      | (Inr a, out) \<Rightarrow> (case f a x of (r', out') \<Rightarrow> (r', out @ out')))"

definition spec_fold_left :: "('a \<Rightarrow> 'b \<Rightarrow> 'a result) \<Rightarrow> 'a \<Rightarrow> 'b list \<Rightarrow> 'a result" where
  "spec_fold_left f a xs = foldl (spec_fold_step f) (Inr a, []) xs"

text \<open>
  The specification describes the literal transform as the replacement of every occurrence
  of \<^verbatim>\<open>from\<close> by \<^verbatim>\<open>to\<close> across the whole string: the subject is read from left to
  right, an occurrence is replaced where it is met and reading resumes after it.
\<close>

function spec_replace_all :: "string \<Rightarrow> string \<Rightarrow> string \<Rightarrow> string" where
  "spec_replace_all pat rep [] = []"
| "spec_replace_all pat rep (c # cs) =
     (if pat \<noteq> [] \<and> prefix pat (c # cs)
      then rep @ spec_replace_all pat rep (drop (length pat) (c # cs))
      else c # spec_replace_all pat rep cs)"
  by pat_completeness auto
termination
  by (relation "measure (\<lambda>(pat, rep, s). length s)") auto

section \<open>A sample environment\<close>

text \<open>
  Concrete collaborators, for evaluating the component on examples: a resolver that
  knows the two templates \<^verbatim>\<open>${value}\<close> and \<^verbatim>\<open>${id}\<close> and returns any other template
  string as it is, and patterns that match their source literally.
\<close>

fun sample_text :: "jsval \<Rightarrow> jserror + string" where
  "sample_text (JStr s) = Inr s"
| "sample_text JUndefined = Inr []"
| "sample_text JNull = Inr ''null''"
| "sample_text (JBool b) = Inr (if b then ''true'' else ''false'')"
| "sample_text (JObj kvs) = Inr ''[object Object]''"
| "sample_text v = Inl (Error ''not in the sample'')"

fun replace_first :: "string \<Rightarrow> string \<Rightarrow> string \<Rightarrow> string" where
  "replace_first src rep [] = []"
| "replace_first src rep (c # cs) =
     (if prefix src (c # cs) then rep @ drop (length src) (c # cs)
      else c # replace_first src rep cs)"

definition sample_env :: "(string \<times> string) env" where
  "sample_env =
     \<lparr> parseVariables = (\<lambda>variables template startPath allowEmpty.
         case template of
           JStr t \<Rightarrow>
             if t = ''${value}'' then sample_text (own_prop variables ''value'')
             else if t = ''${id}'' then sample_text (own_prop variables ''id'')
             else Inr t
         | _ \<Rightarrow> Inl TypeError),
       RegExp = (\<lambda>source flags.
         case source of JStr src \<Rightarrow> Inr (src, flags) | _ \<Rightarrow> Inl SyntaxError),
       String_replace = (\<lambda>s pattern replacement.
         case replacement of
           JStr rep \<Rightarrow>
             Inr (if fst pattern = [] then s
                  else if snd pattern = ''g'' then Array_join rep (String_split (fst pattern) s)
                  else replace_first (fst pattern) rep s)
         | _ \<Rightarrow> Inl TypeError),
       ToString = (\<lambda>v.
         case v of
           JNull \<Rightarrow> Inr ''null''
         | JBool b \<Rightarrow> Inr (if b then ''true'' else ''false'')
         | _ \<Rightarrow> Inl TypeError) \<rparr>"

definition sample_attrs :: attrs where
  "sample_attrs =
     \<lparr> bunsenId = ''foo'',
       cellConfig = JObj [(''transforms'',
         JObj [(''write'', JArr [JObj [(''from'', JStr ''abc''), (''to'', JStr ''abc'')]])])],
       errorMessage = JStr ''Field is required.'',
       required = JUndefined,
       showAllErrors = JUndefined,
       modelValue = JStr ''abc'' \<rparr>"

section \<open>Error display\<close>

lemma handle_keeps:
  "errorMessage (handle env c ev) = errorMessage c \<and>
   showAllErrors (handle env c ev) = showAllErrors c"
  by (cases ev) (simp_all add: onFocusOut_def onFocusIn_def)

lemma foldl_handle_keeps:
  "errorMessage (foldl (handle env) c evs) = errorMessage c \<and>
   showAllErrors (foldl (handle env) c evs) = showAllErrors c"
  by (induction evs arbitrary: c) (simp_all add: handle_keeps)

lemma handle_flag_closed:
  "showErrorMessage c \<in> {JBool False, JBool True} \<Longrightarrow>
   showErrorMessage (handle env c ev) \<in> {JBool False, JBool True}"
  by (cases ev) (auto simp: onFocusOut_def onFocusIn_def)

lemma foldl_handle_flag_closed:
  "showErrorMessage c \<in> {JBool False, JBool True} \<Longrightarrow>
   showErrorMessage (foldl (handle env) c evs) \<in> {JBool False, JBool True}"
proof (induction evs arbitrary: c)
  case Nil
  then show ?case by simp
next
  case (Cons ev evs)
  have "showErrorMessage (handle env c ev) \<in> {JBool False, JBool True}"
    using Cons.prems by (rule handle_flag_closed)
  then show ?case using Cons.IH by simp
qed

lemma create_flag: "showErrorMessage (create a) = JBool False"
  by (simp add: create_def with_default_def getDefaultProps_def)

text \<open>
  C7. The rendered error message is other than \<^verbatim>\<open>null\<close> only when \<^verbatim>\<open>showAllErrors\<close>
  or \<^verbatim>\<open>showErrorMessage\<close> holds; when neither holds it is \<^verbatim>\<open>null\<close> whatever the
  error message is; and when \<^verbatim>\<open>showAllErrors\<close> holds it is the error message after any
  sequence of focus and change events.
\<close>

theorem renderErrorMessage_visibility:
  "(renderErrorMessage_of c \<noteq> JNull \<longrightarrow>
      truthy (showAllErrors c) \<or> truthy (showErrorMessage c)) \<and>
   (\<not> truthy (showAllErrors c) \<and> \<not> truthy (showErrorMessage c) \<longrightarrow>
      renderErrorMessage_of c = JNull) \<and>
   (truthy (showAllErrors c) \<longrightarrow>
      renderErrorMessage_of (foldl (handle env) c evs) = errorMessage c)"
  by (simp add: renderErrorMessage_of_def renderErrorMessage_def foldl_handle_keeps)

theorem renderErrorMessage_visibility_witness:
  "renderErrorMessage_of (create sample_attrs) = JNull \<and>
   truthy (showAllErrors (create (sample_attrs\<lparr>showAllErrors := JBool True\<rparr>))) \<and>
   renderErrorMessage_of
     (foldl (handle sample_env) (create (sample_attrs\<lparr>showAllErrors := JBool True\<rparr>))
        [FocusOut, FocusIn]) = JStr ''Field is required.''"
  using renderErrorMessage_visibility
    [of "create sample_attrs" sample_env "[]"]
    renderErrorMessage_visibility
    [of "create (sample_attrs\<lparr>showAllErrors := JBool True\<rparr>)" sample_env "[FocusOut, FocusIn]"]
  by (simp add: create_def sample_attrs_def with_default_def getDefaultProps_def)

text \<open>
  C8. A field starts with its error hidden (\<^verbatim>\<open>showErrorMessage\<close> false). Focus-out shows
  it when it is hidden and changes nothing when it is shown; focus-in hides it when it is
  shown and changes nothing when it is hidden; a change event leaves the flag alone. So
  after any sequence of events the flag is \<^verbatim>\<open>false\<close> or \<^verbatim>\<open>true\<close>.
\<close>

theorem error_display_state_machine:
  "showErrorMessage (create a) = JBool False \<and>
   (showErrorMessage c = JBool False \<longrightarrow>
      showErrorMessage (handle env c FocusOut) = JBool True) \<and>
   (showErrorMessage c = JBool True \<longrightarrow> handle env c FocusOut = c) \<and>
   (showErrorMessage c = JBool True \<longrightarrow>
      showErrorMessage (handle env c FocusIn) = JBool False) \<and>
   (showErrorMessage c = JBool False \<longrightarrow> handle env c FocusIn = c) \<and>
   showErrorMessage (handle env c (Change e)) = showErrorMessage c \<and>
   showErrorMessage (foldl (handle env) (create a) evs) \<in> {JBool False, JBool True}"
proof -
  have "showErrorMessage (foldl (handle env) (create a) evs) \<in> {JBool False, JBool True}"
    by (rule foldl_handle_flag_closed) (simp add: create_flag)
  then show ?thesis
    by (simp add: create_flag onFocusOut_def onFocusIn_def)
qed

theorem error_display_state_machine_witness:
  "showErrorMessage (create sample_attrs) = JBool False \<and>
   showErrorMessage (handle sample_env (create sample_attrs) FocusOut) = JBool True \<and>
   showErrorMessage
     (handle sample_env (handle sample_env (create sample_attrs) FocusOut) FocusIn) =
     JBool False \<and>
   handle sample_env (create sample_attrs) FocusIn = create sample_attrs"
  using error_display_state_machine
    [of sample_attrs "create sample_attrs" sample_env JNull "[]"]
    error_display_state_machine
    [of sample_attrs "handle sample_env (create sample_attrs) FocusOut" sample_env JNull "[]"]
  by simp


section \<open>Parsing a change event\<close>

text \<open>
  C9. For an event \<open>e\<close> other than \<^verbatim>\<open>undefined\<close> and \<^verbatim>\<open>null\<close>, \<^verbatim>\<open>parseValue\<close>
  returns \<^verbatim>\<open>e.value\<close> when it is defined, else the value \<^verbatim>\<open>_.get\<close> reads at
  \<^verbatim>\<open>target.value\<close> when it is defined, else \<open>e\<close> itself. Unless \<open>e\<close> has a property
  whose name is the whole path, what \<^verbatim>\<open>_.get\<close> reads is \<^verbatim>\<open>e.target.value\<close>, and
  \<^verbatim>\<open>undefined\<close> when \<^verbatim>\<open>e.target\<close> is \<^verbatim>\<open>undefined\<close> or \<^verbatim>\<open>null\<close>.
\<close>

theorem parseValue_first_defined:
  assumes "e \<noteq> JUndefined" and "e \<noteq> JNull"
  shows "parseValue e =
     Inr (if own_prop e ''value'' \<noteq> JUndefined then own_prop e ''value''
          else if lodash_get e ''target'' ''value'' \<noteq> JUndefined
               then lodash_get e ''target'' ''value''
          else e) \<and>
     (\<not> has_own e ''target.value'' \<longrightarrow>
        lodash_get e ''target'' ''value'' =
          (if own_prop e ''target'' = JUndefined \<or> own_prop e ''target'' = JNull
           then JUndefined
           else own_prop (own_prop e ''target'') ''value''))"
proof -
  have undef: "isUndefined x \<longleftrightarrow> x = JUndefined" for x by (cases x) simp_all
  have "js_prop e ''value'' = Inr (own_prop e ''value'')"
    using assms by (cases e) simp_all
  then have "parseValue e =
     Inr (if own_prop e ''value'' \<noteq> JUndefined then own_prop e ''value''
          else if lodash_get e ''target'' ''value'' \<noteq> JUndefined
               then lodash_get e ''target'' ''value''
          else e)"
    using assms by (simp add: parseValue_def undef)
  moreover have "\<not> has_own e ''target.value'' \<longrightarrow>
        lodash_get e ''target'' ''value'' =
          (if own_prop e ''target'' = JUndefined \<or> own_prop e ''target'' = JNull
           then JUndefined
           else own_prop (own_prop e ''target'') ''value'')"
    using assms by (simp add: lodash_get_def Let_def)
  ultimately show ?thesis by (rule conjI)
qed

theorem parseValue_first_defined_witness:
  "parseValue (JObj [(''value'', JNum 7), (''target'', JObj [(''value'', JStr ''x'')])]) =
     Inr (JNum 7) \<and>
   parseValue (JObj [(''target'', JObj [(''value'', JStr ''x'')])]) = Inr (JStr ''x'') \<and>
   parseValue (JBool True) = Inr (JBool True)"
  using parseValue_first_defined
      [of "JObj [(''value'', JNum 7), (''target'', JObj [(''value'', JStr ''x'')])]"]
    parseValue_first_defined [of "JObj [(''target'', JObj [(''value'', JStr ''x'')])]"]
    parseValue_first_defined [of "JBool True"]
  by (simp add: lodash_get_def)

section \<open>Transforms\<close>

text \<open>
  C3. A model value that is not a string is displayed as it is, without a warning,
  whatever the cell configuration holds; a string goes through the read transforms.
\<close>

theorem transformedValue_non_string:
  "(\<not> isString v \<longrightarrow> transformedValue env fieldId v config = (Inr v, [])) \<and>
   (isString v \<longrightarrow>
      transformedValue env fieldId v config =
        applyTransforms env fieldId v (lodash_get config ''transforms'' ''read''))"
  by (simp add: transformedValue_def)

theorem transformedValue_non_string_witness:
  "transformedValue sample_env ''foo'' (JNum 42)
     (JObj [(''transforms'',
        JObj [(''read'', JArr [JObj [(''from'', JStr ''4''), (''to'', JStr ''5'')]])])]) =
     (Inr (JNum 42), [])"
  using transformedValue_non_string [of "JNum 42" sample_env "''foo''"
      "JObj [(''transforms'',
         JObj [(''read'', JArr [JObj [(''from'', JStr ''4''), (''to'', JStr ''5'')]])])]"]
  by simp

text \<open>
  C5. A transform object with no key \<^verbatim>\<open>object\<close> and without both keys \<^verbatim>\<open>from\<close> and
  \<^verbatim>\<open>to\<close> leaves the value as it is and logs one warning that carries the transform;
  no exception is thrown.
\<close>

theorem applyTransform_unknown_shape:
  assumes "''object'' \<notin> fst ` set kvs"
    and "\<not> (''from'' \<in> fst ` set kvs \<and> ''to'' \<in> fst ` set kvs)"
  shows "applyTransform env fieldId v (JObj kvs) = (Inr v, [Warn (JObj kvs)])"
  using assms by (auto simp: applyTransform_def isStringTransform_def)

theorem applyTransform_unknown_shape_witness:
  "applyTransform sample_env ''foo'' (JStr ''a-b-c'') (JObj [(''from'', JStr ''-'')]) =
     (Inr (JStr ''a-b-c''), [Warn (JObj [(''from'', JStr ''-'')])])"
  using applyTransform_unknown_shape
      [of "[(''from'', JStr ''-'')]" sample_env "''foo''" "JStr ''a-b-c''"]
  by simp

lemma spec_fold_step_Inl: "spec_fold_step f (Inl e, out) x = (Inl e, out)"
  by (simp add: spec_fold_step_def)

lemma spec_fold_step_Inr:
  "spec_fold_step f (Inr a, out) x = (case f a x of (r', out') \<Rightarrow> (r', out @ out'))"
  by (simp add: spec_fold_step_def)

lemma foldl_spec_fold_step_Inl: "foldl (spec_fold_step f) (Inl e, out) xs = (Inl e, out)"
  by (induction xs) (simp_all add: spec_fold_step_Inl)

lemma foldl_spec_fold_step_reduce:
  "foldl (spec_fold_step (applyTransform env fieldId)) (Inr a, out) ts =
     (case reduce env fieldId a ts of (r, out') \<Rightarrow> (r, out @ out'))"
proof (induction ts arbitrary: a out)
  case Nil
  then show ?case by simp
next
  case (Cons t ts)
  obtain r w where step: "applyTransform env fieldId a t = (r, w)"
    by (cases "applyTransform env fieldId a t")
  show ?case
  proof (cases r)
    case (Inl e)
    then show ?thesis using step by (simp add: spec_fold_step_Inr foldl_spec_fold_step_Inl)
  next
    case (Inr a')
    then show ?thesis using step Cons.IH [of a' "out @ w"]
      by (simp add: spec_fold_step_Inr split: prod.splits)
  qed
qed

text \<open>
  C2. \<^verbatim>\<open>applyTransforms\<close> returns the value unchanged, with no warning, when the
  transforms are \<^verbatim>\<open>undefined\<close>, \<^verbatim>\<open>null\<close> or the empty array; on an array it is the
  fold of \<^verbatim>\<open>applyTransform\<close> from left to right that starts from the value.
\<close>

theorem applyTransforms_fold:
  "applyTransforms env fieldId v JUndefined = (Inr v, []) \<and>
   applyTransforms env fieldId v JNull = (Inr v, []) \<and>
   applyTransforms env fieldId v (JArr []) = (Inr v, []) \<and>
   applyTransforms env fieldId v (JArr ts) = spec_fold_left (applyTransform env fieldId) v ts"
proof -
  have "applyTransforms env fieldId v (JArr ts) = reduce env fieldId v ts"
    by (cases ts) (simp_all add: applyTransforms_def)
  then show ?thesis
    by (simp add: applyTransforms_def spec_fold_left_def foldl_spec_fold_step_reduce)
qed

theorem applyTransforms_fold_witness:
  "applyTransforms sample_env ''foo'' (JStr ''a-b-c'')
     (JArr [JObj [(''from'', JStr ''-''), (''to'', JStr ''+'')],
            JObj [(''x'', JNull)],
            JObj [(''from'', JStr ''+''), (''to'', JStr ''--'')]]) =
     (Inr (JStr ''a--b--c''), [Warn (JObj [(''x'', JNull)])])"
proof -
  have "spec_fold_left (applyTransform sample_env ''foo'') (JStr ''a-b-c'')
     [JObj [(''from'', JStr ''-''), (''to'', JStr ''+'')],
      JObj [(''x'', JNull)],
      JObj [(''from'', JStr ''+''), (''to'', JStr ''--'')]] =
     (Inr (JStr ''a--b--c''), [Warn (JObj [(''x'', JNull)])])"
    by code_simp
  then show ?thesis
    using applyTransforms_fold [of sample_env "''foo''" "JStr ''a-b-c''"
      "[JObj [(''from'', JStr ''-''), (''to'', JStr ''+'')],
        JObj [(''x'', JNull)],
        JObj [(''from'', JStr ''+''), (''to'', JStr ''--'')]]"]
    by simp
qed


text \<open>
  C4. For a string value and a transform whose \<^verbatim>\<open>regex\<close> is truthy, the pattern is built
  from \<^verbatim>\<open>from\<close> with no flag when \<^verbatim>\<open>global\<close> is the boolean \<^verbatim>\<open>false\<close>, and with
  the flag \<^verbatim>\<open>g\<close> for every other value of \<^verbatim>\<open>global\<close>, an absent one too; the result is
  what \<^verbatim>\<open>replace\<close> returns for that pattern and \<^verbatim>\<open>to\<close>.
\<close>

theorem regex_global_flag:
  assumes "truthy (own_prop (JObj kvs) ''regex'')"
  shows "let run = (\<lambda>flags.
             case RegExp env (own_prop (JObj kvs) ''from'') flags of
               Inl e \<Rightarrow> Inl e
             | Inr pattern \<Rightarrow>
                 (case String_replace env s pattern (own_prop (JObj kvs) ''to'') of
                    Inl e \<Rightarrow> Inl e
                  | Inr r \<Rightarrow> Inr (JStr r)))
         in (own_prop (JObj kvs) ''global'' = JBool False \<longrightarrow>
               applyStringTransform env (JStr s) (JObj kvs) = run []) \<and>
            (own_prop (JObj kvs) ''global'' \<noteq> JBool False \<longrightarrow>
               applyStringTransform env (JStr s) (JObj kvs) = run ''g'') \<and>
            (''global'' \<notin> fst ` set kvs \<longrightarrow>
               applyStringTransform env (JStr s) (JObj kvs) = run ''g'')"
proof -
  have absent: "own_prop (JObj kvs) ''global'' = JUndefined" if "''global'' \<notin> fst ` set kvs"
    using that by (simp add: map_of_eq_None_iff [THEN iffD2])
  show ?thesis using assms absent
    by (auto simp: applyStringTransform_def Let_def split: sum.splits)
qed

theorem regex_global_flag_witness:
  "applyStringTransform sample_env (JStr ''a-b-c'')
     (JObj [(''from'', JStr ''-''), (''to'', JStr ''+''), (''regex'', JBool True),
            (''global'', JBool False)]) = Inr (JStr ''a+b-c'') \<and>
   applyStringTransform sample_env (JStr ''a-b-c'')
     (JObj [(''from'', JStr ''-''), (''to'', JStr ''+''), (''regex'', JBool True),
            (''global'', JNull)]) = Inr (JStr ''a+b+c'') \<and>
   applyStringTransform sample_env (JStr ''a-b-c'')
     (JObj [(''from'', JStr ''-''), (''to'', JStr ''+''), (''regex'', JBool True)]) =
     Inr (JStr ''a+b+c'')"
proof -
  have first: "replace_first ''-'' ''+'' ''a-b-c'' = ''a+b-c''"
    by simp
  have every: "Array_join ''+'' (String_split ''-'' ''a-b-c'') = ''a+b+c''"
    by (simp add: String_split_def)
  show ?thesis
    using regex_global_flag
        [of "[(''from'', JStr ''-''), (''to'', JStr ''+''), (''regex'', JBool True),
              (''global'', JBool False)]" sample_env "''a-b-c''"]
      regex_global_flag
        [of "[(''from'', JStr ''-''), (''to'', JStr ''+''), (''regex'', JBool True),
              (''global'', JNull)]" sample_env "''a-b-c''"]
      regex_global_flag
        [of "[(''from'', JStr ''-''), (''to'', JStr ''+''), (''regex'', JBool True)]"
            sample_env "''a-b-c''"]
    by (simp add: sample_env_def first every)
qed

lemma split_at_not_Nil: "split_at sep piece s \<noteq> []"
  by (induction sep piece s rule: split_at.induct) auto

lemma Array_join_Cons: "ys \<noteq> [] \<Longrightarrow> Array_join sep (x # ys) = x @ sep @ Array_join sep ys"
  by (cases ys) simp_all

lemma join_split_at:
  "sep \<noteq> [] \<Longrightarrow> Array_join rep (split_at sep piece s) = piece @ spec_replace_all sep rep s"
proof (induction sep piece s rule: split_at.induct)
  case (1 sep piece)
  then show ?case by simp
next
  case (2 sep piece c cs)
  show ?case
  proof (cases "prefix sep (c # cs)")
    case True
    then show ?thesis using 2 by (simp add: Array_join_Cons split_at_not_Nil)
  next
    case False
    then show ?thesis using 2 by simp
  qed
qed

text \<open>
  C6. For a string value and a transform with the strings \<^verbatim>\<open>from\<close> and \<^verbatim>\<open>to\<close>, no key
  \<^verbatim>\<open>object\<close> and a falsy \<^verbatim>\<open>regex\<close>, \<^verbatim>\<open>applyTransform\<close> returns the value split on
  \<^verbatim>\<open>from\<close> and joined with \<^verbatim>\<open>to\<close>, with no warning; when \<^verbatim>\<open>from\<close> is not empty
  that is the value with every occurrence of \<^verbatim>\<open>from\<close> replaced by \<^verbatim>\<open>to\<close>.
\<close>

theorem literal_split_join:
  assumes "''object'' \<notin> fst ` set kvs"
    and "map_of kvs ''from'' = Some (JStr f)"
    and "map_of kvs ''to'' = Some (JStr g)"
    and "\<not> truthy (own_prop (JObj kvs) ''regex'')"
  shows "applyTransform env fieldId (JStr s) (JObj kvs) =
           (Inr (JStr (Array_join g (String_split f s))), []) \<and>
         (f \<noteq> [] \<longrightarrow> Array_join g (String_split f s) = spec_replace_all f g s)"
proof -
  have "''from'' \<in> fst ` set kvs" "''to'' \<in> fst ` set kvs"
    using assms(2,3) by (auto dest: map_of_SomeD intro: rev_image_eqI)
  then have "applyTransform env fieldId (JStr s) (JObj kvs) =
      (applyStringTransform env (JStr s) (JObj kvs), [])"
    using assms(1) by (simp add: applyTransform_def isStringTransform_def)
  moreover have "applyStringTransform env (JStr s) (JObj kvs) =
      Inr (JStr (Array_join g (String_split f s)))"
    using assms(2,3,4)
    by (simp add: applyStringTransform_def js_split_def js_join_def toStr_def)
  moreover have "f \<noteq> [] \<longrightarrow> Array_join g (String_split f s) = spec_replace_all f g s"
    using join_split_at [of f g "[]" s] by (simp add: String_split_def)
  ultimately show ?thesis by simp
qed

theorem literal_split_join_witness:
  "applyTransform sample_env ''foo'' (JStr ''a, b, c'')
     (JObj [(''from'', JStr '', ''), (''to'', JStr '';''), (''regex'', JBool False)]) =
     (Inr (JStr ''a;b;c''), []) \<and>
   spec_replace_all '', '' '';'' ''a, b, c'' = ''a;b;c''"
proof -
  have "Array_join '';'' (String_split '', '' ''a, b, c'') = ''a;b;c''"
    by (simp add: String_split_def)
  then show ?thesis
    using literal_split_join
        [of "[(''from'', JStr '', ''), (''to'', JStr '';''), (''regex'', JBool False)]"
            "'', ''" "'';''" sample_env "''foo''" "''a, b, c''"]
    by simp
qed

section \<open>The object transform\<close>






section \<open>The change pipeline\<close>

lemma upward_append: "upward (xs @ ys) = upward xs @ upward ys"
  by (induction xs rule: upward.induct) simp_all

lemma applyTransform_no_upward: "upward (snd (applyTransform env fieldId v t)) = []"
  by (simp add: applyTransform_def split: sum.splits)

lemma reduce_no_upward: "upward (snd (reduce env fieldId v ts)) = []"
proof (induction ts arbitrary: v)
  case Nil
  then show ?case by simp
next
  case (Cons t ts)
  obtain r w where step: "applyTransform env fieldId v t = (r, w)"
    by (cases "applyTransform env fieldId v t")
  have w: "upward w = []"
    using applyTransform_no_upward [of env fieldId v t] step by simp
  show ?case
  proof (cases r)
    case (Inl e)
    then show ?thesis using step w by simp
  next
    case (Inr a)
    obtain r' w' where rest: "reduce env fieldId a ts = (r', w')"
      by (cases "reduce env fieldId a ts")
    have "upward w' = []" using Cons.IH [of a] rest by simp
    then show ?thesis using Inr step rest w by (simp add: upward_append)
  qed
qed

lemma applyTransforms_no_upward: "upward (snd (applyTransforms env fieldId v ts)) = []"
  by (cases ts) (simp_all add: applyTransforms_def reduce_no_upward)

text \<open>
  C1. On a change event the parent's \<^verbatim>\<open>onChange\<close> is called with the field's id and the
  write-transformed parsed value when that value is not deep-equal to the committed value,
  and is not called when it is deep-equal; it is not called either when parsing or a
  transform throws, and never more than once.
\<close>

theorem onChange_upward:
  "upward (snd (onChange env c e)) =
     (case parseValue e of
        Inl err \<Rightarrow> []
      | Inr newValue \<Rightarrow>
          (case fst (applyTransforms env (bunsenId c) newValue
                       (ember_get (cellConfig c) [''transforms'', ''write''])) of
             Inl err \<Rightarrow> []
           | Inr transformed \<Rightarrow>
               if isEqual transformed (modelValue c) then []
               else [(bunsenId c, transformed)])) \<and>
   length (upward (snd (onChange env c e))) \<le> 1"
proof (cases "parseValue e")
  case (Inl err)
  then show ?thesis by (simp add: onChange_def)
next
  case (Inr newValue)
  let ?ts = "ember_get (cellConfig c) [''transforms'', ''write'']"
  obtain r out where run: "applyTransforms env (bunsenId c) newValue ?ts = (r, out)"
    by (cases "applyTransforms env (bunsenId c) newValue ?ts")
  have out: "upward out = []"
    using applyTransforms_no_upward [of env "bunsenId c" newValue ?ts] run by simp
  show ?thesis
  proof (cases r)
    case (Inl err)
    then show ?thesis using Inr run out by (simp add: onChange_def)
  next
    case (Inr transformed)
    then show ?thesis using \<open>parseValue e = Inr newValue\<close> run out
      by (simp add: onChange_def upward_append)
  qed
qed

theorem onChange_upward_witness:
  "upward (snd (onChange sample_env (create sample_attrs) (JStr ''abc''))) = [] \<and>
   upward (snd (onChange sample_env (create sample_attrs)
     (JObj [(''target'', JObj [(''value'', JStr ''abd'')])]))) = [(''foo'', JStr ''abd'')]"
proof -
  let ?ts = "JArr [JObj [(''from'', JStr ''abc''), (''to'', JStr ''abc'')]]"
  have config: "ember_get (cellConfig (create sample_attrs)) [''transforms'', ''write''] = ?ts"
    by code_simp
  have props: "bunsenId (create sample_attrs) = ''foo''"
    "modelValue (create sample_attrs) = JStr ''abc''"
    by code_simp+
  have parsed: "parseValue (JStr ''abc'') = Inr (JStr ''abc'')"
    "parseValue (JObj [(''target'', JObj [(''value'', JStr ''abd'')])]) = Inr (JStr ''abd'')"
    by code_simp+
  have written: "applyTransforms sample_env ''foo'' (JStr ''abc'') ?ts = (Inr (JStr ''abc''), [])"
    "applyTransforms sample_env ''foo'' (JStr ''abd'') ?ts = (Inr (JStr ''abd''), [])"
    by code_simp+
  show ?thesis
    using onChange_upward [of sample_env "create sample_attrs" "JStr ''abc''"]
      onChange_upward [of sample_env "create sample_attrs"
        "JObj [(''target'', JObj [(''value'', JStr ''abd'')])]"]
    by (simp add: config props parsed written del: ember_get.simps)
qed

end
